theory Spec2Isabelle
  imports Main "HOL-Library.Sublist" "HOL-Library.Multiset"
begin

section \<open>JavaScript string operations used by the script\<close>

text \<open>
  Strings are character lists. The operations below are the ones the script
  \<^verbatim>\<open>scripts/implement-mock-replacement.js\<close> calls on strings:
  \<^verbatim>\<open>includes\<close>, \<^verbatim>\<open>split\<close> with a one-character separator,
  \<^verbatim>\<open>join\<close>, \<^verbatim>\<open>toLowerCase\<close> and \<^verbatim>\<open>toUpperCase\<close>.
\<close>

text \<open>\<^verbatim>\<open>s.includes(sub)\<close>: does \<open>sub\<close> occur in \<open>s\<close> at some position?\<close>

fun includes_str :: "string \<Rightarrow> string \<Rightarrow> bool" where
  "includes_str [] sub = (sub = [])"
| "includes_str (c # cs) sub = (prefix sub (c # cs) \<or> includes_str cs sub)"

text \<open>
  \<^verbatim>\<open>s.split(sep)\<close> for a separator of one character: the pieces between the
  separators, in order. The result is never empty (\<^verbatim>\<open>''.split(':')\<close> is \<^verbatim>\<open>['']\<close>).
  The second argument is the piece read so far.
\<close>

fun split_acc :: "char \<Rightarrow> string \<Rightarrow> string \<Rightarrow> string list" where
  "split_acc sep cur [] = [cur]"
| "split_acc sep cur (c # cs) =
     (if c = sep then cur # split_acc sep [] cs else split_acc sep (cur @ [c]) cs)"

definition split_on :: "char \<Rightarrow> string \<Rightarrow> string list" where
  "split_on sep s = split_acc sep [] s"

text \<open>\<^verbatim>\<open>parts.join(sep)\<close>.\<close>

fun join :: "string \<Rightarrow> string list \<Rightarrow> string" where
  "join sep [] = []"
| "join sep [x] = x"
| "join sep (x # y # ys) = x @ sep @ join sep (y # ys)"

text \<open>
  \<^verbatim>\<open>toLowerCase\<close> and \<^verbatim>\<open>toUpperCase\<close> on the ASCII letters; every other
  character is left as it is. (Outside ASCII, JavaScript maps no character to one of
  the letters of \<^verbatim>\<open>database\<close>, the only word the script looks for in a
  lower-cased string, and the only strings it upper-cases are its own module names.)
\<close>

definition lower_char :: "char \<Rightarrow> char" where
  "lower_char c =
     (case map_of (zip ''ABCDEFGHIJKLMNOPQRSTUVWXYZ'' ''abcdefghijklmnopqrstuvwxyz'') c of
        None \<Rightarrow> c
      | Some l \<Rightarrow> l)"

definition upper_char :: "char \<Rightarrow> char" where
  "upper_char c =
     (case map_of (zip ''abcdefghijklmnopqrstuvwxyz'' ''ABCDEFGHIJKLMNOPQRSTUVWXYZ'') c of
        None \<Rightarrow> c
      | Some u \<Rightarrow> u)"

definition toLowerCase :: "string \<Rightarrow> string" where
  "toLowerCase s = map lower_char s"

definition toUpperCase :: "string \<Rightarrow> string" where
  "toUpperCase s = map upper_char s"

section \<open>Data model\<close>

text \<open>
  One element of \<^verbatim>\<open>results\<close> in \<^verbatim>\<open>findMockUsage\<close>: the object
  \<^verbatim>\<open>{ filepath, matches }\<close>.
\<close>

record entry =
  filepath :: string
  matches :: "string list"

text \<open>A parsed line of the search output: the file path and the line's context.\<close>

type_synonym raw_match = "string \<times> string"

text \<open>
  What \<^verbatim>\<open>execSync(grepCommand, ...)\<close> does for one pattern: it returns the
  standard output of the search, or it throws an error that carries the exit status
  (the search exits with status 1 when nothing matches).
\<close>

datatype grep_result = GrepOutput string | GrepFailed int

text \<open>The module table built by \<^verbatim>\<open>categorizeMockUsageByModule\<close>: an object
  whose keys are module names, kept in the order in which the keys were first set,
  which is the order \<^verbatim>\<open>Object.entries\<close> reads them in.\<close>

type_synonym modules = "(string \<times> entry list) list"

section \<open>findMockUsage\<close>

definition MOCK_PATTERNS :: "string list" where
  "MOCK_PATTERNS =
     [''mock'', ''fake'', ''dummy'', ''placeholder'', ''sample data'', ''test data'',
      ''staticData'', ''mockData'', ''MOCK_'']"

text \<open>\<^verbatim>\<open>output.split('\n').filter(Boolean)\<close>: the non-empty lines.\<close>

definition lines_of :: "string \<Rightarrow> string list" where
  "lines_of output = filter (\<lambda>l. l \<noteq> []) (split_on CHR ''\<newline>'' output)"

text \<open>
  \<^verbatim>\<open>parts = line.split(':')\<close>, \<^verbatim>\<open>filepath = parts[0]\<close>,
  \<^verbatim>\<open>context = parts.slice(1).join(':')\<close>. The array \<open>parts\<close> always has a
  first element, so the first branch is never taken.
\<close>

definition parse_line :: "string \<Rightarrow> raw_match" where
  "parse_line line =
     (case split_on CHR '':'' line of
        [] \<Rightarrow> ([], [])
      | p # ps \<Rightarrow> (p, join '':'' ps))"

text \<open>
  The end of the loop body: \<^verbatim>\<open>results.find(entry => entry.filepath === filepath)\<close>
  takes the first entry with this path; the context is pushed to its
  \<^verbatim>\<open>matches\<close> unless some element there is equal to it; with no such entry a
  new one is pushed at the end of \<^verbatim>\<open>results\<close>.
\<close>

fun add_result :: "entry list \<Rightarrow> string \<Rightarrow> string \<Rightarrow> entry list" where
  "add_result [] fp ctx = [\<lparr>filepath = fp, matches = [ctx]\<rparr>]"
| "add_result (e # es) fp ctx =
     (if filepath e = fp
      then (if ctx \<in> set (matches e) then e else e\<lparr>matches := matches e @ [ctx]\<rparr>) # es
      else e # add_result es fp ctx)"

text \<open>The three early returns of the loop body, in the order of the source.\<close>

definition is_test_file :: "string \<Rightarrow> bool" where
  "is_test_file fp = (includes_str fp ''test'' \<or> includes_str fp ''__tests__'' \<or> includes_str fp ''spec'')"

definition is_node_modules :: "string \<Rightarrow> bool" where
  "is_node_modules fp = includes_str fp ''node_modules''"

definition is_real_data :: "string \<Rightarrow> bool" where
  "is_real_data ctx = includes_str (toLowerCase ctx) ''database''"

definition skipped :: "raw_match \<Rightarrow> bool" where
  "skipped m = (is_test_file (fst m) \<or> is_node_modules (fst m) \<or> is_real_data (snd m))"

text \<open>The loop body after the line is parsed (lines 50 to 77 of the script).\<close>

definition handle_match :: "entry list \<Rightarrow> raw_match \<Rightarrow> entry list" where
  "handle_match results m =
     (if is_test_file (fst m) then results
      else if is_node_modules (fst m) then results
      else if is_real_data (snd m) then results
      else add_result results (fst m) (snd m))"

definition handle_line :: "entry list \<Rightarrow> string \<Rightarrow> entry list" where
  "handle_line results line = handle_match results (parse_line line)"

text \<open>
  One round of \<^verbatim>\<open>MOCK_PATTERNS.forEach\<close>: the search is run for the pattern;
  when it throws, the \<^verbatim>\<open>catch\<close> block only writes to the console and
  \<^verbatim>\<open>results\<close> stays as it is.
\<close>

definition scan_pattern :: "(string \<Rightarrow> grep_result) \<Rightarrow> entry list \<Rightarrow> string \<Rightarrow> entry list" where
  "scan_pattern grep results pattern =
     (case grep pattern of
        GrepOutput output \<Rightarrow> foldl handle_line results (lines_of output)
      | GrepFailed status \<Rightarrow> results)"

definition findMockUsageWith :: "(string \<Rightarrow> grep_result) \<Rightarrow> string list \<Rightarrow> entry list" where
  "findMockUsageWith grep patterns = foldl (scan_pattern grep) [] patterns"

definition findMockUsage :: "(string \<Rightarrow> grep_result) \<Rightarrow> entry list" where
  "findMockUsage grep = findMockUsageWith grep MOCK_PATTERNS"

text \<open>
  The aggregation stage on its own: the loop body run over a sequence of parsed
  matches, starting from the empty \<^verbatim>\<open>results\<close>.
\<close>

definition aggregate :: "raw_match list \<Rightarrow> entry list" where
  "aggregate ms = foldl handle_match [] ms"

text \<open>The parsed matches of a run, in the order in which the loops visit them.\<close>

definition raw_matches :: "(string \<Rightarrow> grep_result) \<Rightarrow> string list \<Rightarrow> raw_match list" where
  "raw_matches grep patterns =
     concat (map (\<lambda>p. case grep p of
                         GrepOutput output \<Rightarrow> map parse_line (lines_of output)
                       | GrepFailed status \<Rightarrow> []) patterns)"

section \<open>categorizeMockUsageByModule\<close>

text \<open>The chain of \<^verbatim>\<open>if\<close>/\<^verbatim>\<open>else if\<close> that picks the module of a path.\<close>

definition module_of :: "string \<Rightarrow> string" where
  "module_of fp =
     (if includes_str fp ''/auth/'' \<or> includes_str fp ''/authentication/'' then ''auth''
      else if includes_str fp ''/assessment/'' then ''assessment''
      else if includes_str fp ''/item/'' \<or> includes_str fp ''/item-banking/'' then ''item-banking''
      else if includes_str fp ''/psychometric/'' then ''psychometric''
      else if includes_str fp ''/results/'' then ''results''
      else if includes_str fp ''/admin/'' then ''admin''
      else if includes_str fp ''/analytics/'' then ''analytics''
      else if includes_str fp ''/ui/'' \<or> includes_str fp ''/components/'' then ''ui''
      else ''unknown'')"

text \<open>
  \<^verbatim>\<open>if (!modules[module]) modules[module] = []; modules[module].push(entry)\<close>:
  the entry goes to the end of the module's array; a module seen for the first time
  becomes the last key of the object.
\<close>

fun push_entry :: "modules \<Rightarrow> string \<Rightarrow> entry \<Rightarrow> modules" where
  "push_entry [] m e = [(m, [e])]"
| "push_entry ((k, es) # rest) m e =
     (if k = m then (k, es @ [e]) # rest else (k, es) # push_entry rest m e)"

definition categorizeMockUsageByModule :: "entry list \<Rightarrow> modules" where
  "categorizeMockUsageByModule mockUsage =
     foldl (\<lambda>mods e. push_entry mods (module_of (filepath e)) e) [] mockUsage"

section \<open>The report\<close>

definition report_header :: string where
  "report_header =
     ''# Workstream Mock Replacement Report\<newline>'' @
     ''\<newline>'' @
     ''## Overview\<newline>'' @
     ''\<newline>'' @
     ''This report identifies mock data usage in the codebase that needs to be replaced with real Supabase database integration. This is part of the `workstream-mock-replacement` initiative, which aims to enhance the application's reliability by using real data.\<newline>'' @
     ''\<newline>'' @
     ''## Mock Data Usage\<newline>'' @
     ''\<newline>''"

definition report_footer :: string where
  "report_footer =
     ''## Implementation Steps\<newline>'' @
     ''\<newline>'' @
     ''For complete implementation details, please run the full script locally:\<newline>'' @
     ''```bash\<newline>'' @
     ''node scripts/implement-mock-replacement.js\<newline>'' @
     ''```\<newline>'' @
     ''\<newline>'' @
     ''This script will:\<newline>'' @
     ''1. Analyze mock data usage across all modules\<newline>'' @
     ''2. Generate a detailed replacement strategy for each module\<newline>'' @
     ''3. Create test data utilities for testing\<newline>'' @
     ''4. Provide code examples for the replacement process\<newline>'' @
     ''\<newline>'' @
     ''The full implementation will also generate the following patterns:\<newline>'' @
     ''- Loading state components\<newline>'' @
     ''- SWR integration for data fetching\<newline>'' @
     ''- Error handling patterns\<newline>'' @
     ''- Database connectivity monitoring\<newline>''"

text \<open>\<^verbatim>\<open>module.charAt(0).toUpperCase() + module.slice(1)\<close>.\<close>

definition capitalize :: "string \<Rightarrow> string" where
  "capitalize m = toUpperCase (take 1 m) @ drop 1 m"

text \<open>
  The second line of the loop over the entries is written with single quotes in the
  script, so it is the text between the quotes as it stands.
\<close>

definition context_header :: string where
  "context_header = ''Context (showing 1 of ${entry.matches.length} matches):\<newline>\<newline>''"

definition render_entry :: "entry \<Rightarrow> string" where
  "render_entry e =
     (''#### `'' @ filepath e @ ''`\<newline>\<newline>'') @
     context_header @
     (case matches e of
        [] \<Rightarrow> []
      | c # cs \<Rightarrow> ''```\<newline>'' @ c @ ''\<newline>```\<newline>\<newline>'')"

definition render_module :: "string \<times> entry list \<Rightarrow> string" where
  "render_module b =
     (''### '' @ capitalize (fst b) @ '' Module\<newline>\<newline>'') @
     ''Files with mock data:\<newline>\<newline>'' @
     concat (map render_entry (snd b))"

definition report_content :: "modules \<Rightarrow> string" where
  "report_content mods = report_header @ concat (map render_module mods) @ report_footer"

section \<open>main\<close>

text \<open>
  What a run leaves behind: the text written to the report file, when it was written,
  and the exit status of the process.
\<close>

record run =
  report :: "string option"
  exit_status :: nat

text \<open>
  \<^verbatim>\<open>main\<close>: the search, the module table, the report text, then
  \<^verbatim>\<open>fs.writeFileSync\<close>. The flag \<open>io_ok\<close> says whether
  \<^verbatim>\<open>process.cwd()\<close> and \<^verbatim>\<open>fs.writeFileSync\<close> return; when one of them
  throws, the \<^verbatim>\<open>catch\<close> block calls \<^verbatim>\<open>process.exit(1)\<close> and no report
  is written. Console output is not part of the model.
\<close>

definition main :: "(string \<Rightarrow> grep_result) \<Rightarrow> bool \<Rightarrow> run" where
  "main grep io_ok =
     (let mockUsage = findMockUsage grep;
          mockUsageByModule = categorizeMockUsageByModule mockUsage;
          reportContent = report_content mockUsageByModule
      in if io_ok then \<lparr>report = Some reportContent, exit_status = 0\<rparr>
         else \<lparr>report = None, exit_status = 1\<rparr>)"

section \<open>Two runs on the same file tree\<close>

text \<open>
  The files below the working directory: the path of each file, as the search prints it,
  and its content.
\<close>

type_synonym file_tree = "(string \<times> string) list"

text \<open>
  \<^verbatim>\<open>path.join(process.cwd(), 'workstream-mock-replacement-report.md')\<close>: the report
  is written into the working directory, which is the directory \<^verbatim>\<open>.\<close> that the
  search walks.
\<close>

definition report_file :: string where
  "report_file = ''./workstream-mock-replacement-report.md''"

text \<open>
  The files that \<^verbatim>\<open>grepCommand\<close> lets the search read: those named by one of
  \<^verbatim>\<open>--include="*.ts"\<close>, \<^verbatim>\<open>"*.tsx"\<close>, \<^verbatim>\<open>"*.js"\<close>, \<^verbatim>\<open>"*.jsx"\<close>,
  in no directory named by \<^verbatim>\<open>--exclude-dir="node_modules"\<close>.
\<close>

definition grep_visits :: "string \<Rightarrow> bool" where
  "grep_visits path =
     ((suffix ''.ts'' path \<or> suffix ''.tsx'' path \<or> suffix ''.js'' path \<or> suffix ''.jsx'' path) \<and>
      ''node_modules'' \<notin> set (butlast (split_on CHR ''/'' path)))"

text \<open>
  \<^verbatim>\<open>execSync(grepCommand, ...)\<close> on a file tree. The search program itself is not
  part of the script: \<open>search\<close> is any function that gives, for the files it is let to
  read and a pattern, what the program prints or the status it fails with.
\<close>

definition execSync_grep ::
  "(file_tree \<Rightarrow> string \<Rightarrow> grep_result) \<Rightarrow> file_tree \<Rightarrow> string \<Rightarrow> grep_result" where
  "execSync_grep search tree pattern = search (filter (\<lambda>f. grep_visits (fst f)) tree) pattern"

text \<open>
  \<^verbatim>\<open>fs.writeFileSync(path, content, 'utf8')\<close>: the file gets this content, and is
  created when there is none with this path.
\<close>

fun writeFileSync :: "file_tree \<Rightarrow> string \<Rightarrow> string \<Rightarrow> file_tree" where
  "writeFileSync [] path content = [(path, content)]"
| "writeFileSync ((q, d) # fs) path content =
     (if q = path then (path, content) # fs else (q, d) # writeFileSync fs path content)"

text \<open>
  A run of the script in a file tree: what \<^verbatim>\<open>main\<close> leaves behind, and the tree
  after the run, which holds the report when it was written.
\<close>

definition run_main ::
  "(file_tree \<Rightarrow> string \<Rightarrow> grep_result) \<Rightarrow> bool \<Rightarrow> file_tree \<Rightarrow> run \<times> file_tree" where
  "run_main search io_ok tree =
     (let r = main (execSync_grep search tree) io_ok
      in (r, case report r of
               None \<Rightarrow> tree
             | Some content \<Rightarrow> writeFileSync tree report_file content))"

section \<open>Notions of the specification\<close>

text \<open>
  Removing duplicates while keeping the first occurrence of every element, in the
  order of the first occurrences.
\<close>

fun first_occurrences :: "'a list \<Rightarrow> 'a list" where
  "first_occurrences [] = []"
| "first_occurrences (x # xs) = x # first_occurrences (filter (\<lambda>y. y \<noteq> x) xs)"

text \<open>The matches that pass the three exclusion tests, in their order.\<close>

definition kept :: "raw_match list \<Rightarrow> raw_match list" where
  "kept ms = filter (\<lambda>m. \<not> skipped m) ms"

text \<open>The contexts of the kept matches of one file, with repetitions, in their order.\<close>

definition contexts_for :: "string \<Rightarrow> raw_match list \<Rightarrow> string list" where
  "contexts_for fp ms = map snd (filter (\<lambda>m. fst m = fp) (kept ms))"

text \<open>The contexts stored for a path: those of the first entry with this path.\<close>

definition matches_for :: "string \<Rightarrow> entry list \<Rightarrow> string list" where
  "matches_for fp rs =
     (case find (\<lambda>e. filepath e = fp) rs of None \<Rightarrow> [] | Some e \<Rightarrow> matches e)"

text \<open>
  The classification rules as an ordered list of pairs of a path substring and a module
  name, in the order of the tests of \<^verbatim>\<open>categorizeMockUsageByModule\<close>, and the
  classification by the first rule that applies, \<^verbatim>\<open>unknown\<close> when none does.
\<close>

definition MODULE_RULES :: "(string \<times> string) list" where
  "MODULE_RULES =
     [(''/auth/'', ''auth''), (''/authentication/'', ''auth''),
      (''/assessment/'', ''assessment''),
      (''/item/'', ''item-banking''), (''/item-banking/'', ''item-banking''),
      (''/psychometric/'', ''psychometric''),
      (''/results/'', ''results''),
      (''/admin/'', ''admin''),
      (''/analytics/'', ''analytics''),
      (''/ui/'', ''ui''), (''/components/'', ''ui'')]"

fun first_matching_rule :: "(string \<times> string) list \<Rightarrow> string \<Rightarrow> string" where
  "first_matching_rule [] fp = ''unknown''"
| "first_matching_rule ((sub, m) # rules) fp =
     (if includes_str fp sub then m else first_matching_rule rules fp)"

text \<open>The entries stored under a module name (none when the name is no key).\<close>

definition bucket_of :: "string \<Rightarrow> modules \<Rightarrow> entry list" where
  "bucket_of m mods = (case map_of mods m of None \<Rightarrow> [] | Some es \<Rightarrow> es)"

text \<open>
  The aggregation as the specification words it, for any sequence of exclusion
  predicates: the matches that satisfy some predicate are dropped first; the remaining
  ones are grouped by path, the paths in the order in which they are first seen, and the
  contexts of a path without repetition, in the order of their first occurrences.
\<close>

definition remaining :: "(raw_match \<Rightarrow> bool) list \<Rightarrow> raw_match list \<Rightarrow> raw_match list" where
  "remaining preds ms = filter (\<lambda>m. \<not> list_ex (\<lambda>p. p m) preds) ms"

definition aggregate_spec :: "(raw_match \<Rightarrow> bool) list \<Rightarrow> raw_match list \<Rightarrow> entry list" where
  "aggregate_spec preds ms =
     map (\<lambda>fp. \<lparr>filepath = fp,
                 matches = first_occurrences
                   (map snd (filter (\<lambda>m. fst m = fp) (remaining preds ms)))\<rparr>)
       (first_occurrences (map fst (remaining preds ms)))"

text \<open>The three tests of the script, as exclusion predicates on a match.\<close>

definition EXCLUSIONS :: "(raw_match \<Rightarrow> bool) list" where
  "EXCLUSIONS =
     [\<lambda>m. is_test_file (fst m), \<lambda>m. is_node_modules (fst m), \<lambda>m. is_real_data (snd m)]"

text \<open>The number of contexts stored in all entries together.\<close>

definition total_contexts :: "entry list \<Rightarrow> nat" where
  "total_contexts rs = sum_list (map (\<lambda>e. length (matches e)) rs)"

section \<open>Search results used in the examples\<close>

text \<open>
  A tree with \<^verbatim>\<open>src/a.ts\<close>, whose one line calls \<^verbatim>\<open>mock()\<close>, and
  \<^verbatim>\<open>src/c.ts\<close>, with the line \<^verbatim>\<open>fake(0);\<close> followed by the line
  \<^verbatim>\<open>mock(1);\<close>: what the search prints for each pattern.
\<close>

definition grep_two_files :: "string \<Rightarrow> grep_result" where
  "grep_two_files p =
     (if p = ''mock'' then GrepOutput ''./src/a.ts:const a = mock();\<newline>./src/c.ts:mock(1);\<newline>''
      else if p = ''fake'' then GrepOutput ''./src/c.ts:fake(0);\<newline>''
      else GrepFailed 1)"

text \<open>A tree in which no line matches any pattern: every search exits with status 1.\<close>

definition grep_nothing :: "string \<Rightarrow> grep_result" where
  "grep_nothing p = GrepFailed 1"



text \<open>
  One search function: it prints, file after file, the lines that contain the pattern as
  a substring, each after its path and a colon, and fails with status 1 when there is no
  such line.
\<close>

definition literal_search :: "file_tree \<Rightarrow> string \<Rightarrow> grep_result" where
  "literal_search files pattern =
     (let printed = concat (map (\<lambda>f. map (\<lambda>l. fst f @ '':'' @ l)
                                       (filter (\<lambda>l. includes_str l pattern) (lines_of (snd f))))
                             files)
      in if printed = [] then GrepFailed 1
         else GrepOutput (concat (map (\<lambda>l. l @ ''\<newline>'') printed)))"

text \<open>
  A tree with a \<^verbatim>\<open>README.md\<close> that mentions mock data and the file
  \<^verbatim>\<open>src/assessment/loader.ts\<close> with two lines.
\<close>

definition loader_tree :: file_tree where
  "loader_tree =
     [(''./README.md'', ''mock data everywhere\<newline>''),
      (''./src/assessment/loader.ts'', ''import x from 'y';\<newline>const mockData = load();\<newline>'')]"

section \<open>Properties of the string operations\<close>

lemma includes_str_sublist: "includes_str s sub \<longleftrightarrow> sublist sub s"
  by (induction s) (auto simp: sublist_Cons_right)

lemma includes_str_iff: "includes_str s sub \<longleftrightarrow> (\<exists>p q. s = p @ sub @ q)"
  by (simp add: includes_str_sublist sublist_def)

section \<open>Properties of first occurrences\<close>

lemma set_first_occurrences [simp]: "set (first_occurrences xs) = set xs"
  by (induction xs rule: first_occurrences.induct) auto

lemma distinct_first_occurrences [simp]: "distinct (first_occurrences xs)"
  by (induction xs rule: first_occurrences.induct) auto

lemma first_occurrences_snoc:
  "first_occurrences (xs @ [x]) =
     (if x \<in> set xs then first_occurrences xs else first_occurrences xs @ [x])"
  by (induction xs rule: first_occurrences.induct) auto

section \<open>The aggregation, step by step\<close>

lemma filepath_add_result:
  "map filepath (add_result rs fp c) =
     (if fp \<in> filepath ` set rs then map filepath rs else map filepath rs @ [fp])"
  by (induction rs) auto

lemma matches_for_add_result:
  "matches_for f (add_result rs fp c) =
     (if f = fp
      then (if c \<in> set (matches_for f rs) then matches_for f rs else matches_for f rs @ [c])
      else matches_for f rs)"
  by (induction rs) (auto simp: matches_for_def)

lemma matches_for_member:
  "distinct (map filepath rs) \<Longrightarrow> e \<in> set rs \<Longrightarrow> matches_for (filepath e) rs = matches e"
  by (induction rs) (auto simp: matches_for_def)

lemma handle_match_skipped:
  "handle_match rs m = (if skipped m then rs else add_result rs (fst m) (snd m))"
  by (simp add: handle_match_def skipped_def)

lemma aggregate_Nil [simp]: "aggregate [] = []"
  by (simp add: aggregate_def)

lemma aggregate_snoc: "aggregate (ms @ [m]) = handle_match (aggregate ms) m"
  by (simp add: aggregate_def)

lemma filepath_aggregate:
  "map filepath (aggregate ms) = first_occurrences (map fst (kept ms))"
proof (induction ms rule: rev_induct)
  case Nil
  show ?case by (simp add: kept_def)
next
  case (snoc m ms)
  have "set (map filepath (aggregate ms)) = fst ` set (kept ms)"
    by (simp only: snoc.IH set_first_occurrences set_map)
  then have mem: "fst m \<in> filepath ` set (aggregate ms) \<longleftrightarrow> fst m \<in> fst ` set (kept ms)"
    by simp
  show ?case
  proof (cases "skipped m")
    case True
    then show ?thesis
      using snoc.IH by (simp add: aggregate_snoc handle_match_skipped kept_def)
  next
    case False
    then have k: "kept (ms @ [m]) = kept ms @ [m]"
      by (simp add: kept_def)
    show ?thesis
      using False snoc.IH mem
      by (simp add: aggregate_snoc handle_match_skipped filepath_add_result k
          first_occurrences_snoc)
  qed
qed

lemma matches_for_aggregate:
  "matches_for fp (aggregate ms) = first_occurrences (contexts_for fp ms)"
proof (induction ms rule: rev_induct)
  case Nil
  show ?case by (simp add: matches_for_def contexts_for_def kept_def)
next
  case (snoc m ms)
  show ?case
  proof (cases "skipped m \<or> fst m \<noteq> fp")
    case True
    then have "contexts_for fp (ms @ [m]) = contexts_for fp ms"
      by (auto simp: contexts_for_def kept_def)
    then show ?thesis
      using True snoc.IH
      by (auto simp: aggregate_snoc handle_match_skipped matches_for_add_result)
  next
    case False
    then have "contexts_for fp (ms @ [m]) = contexts_for fp ms @ [snd m]"
      by (simp add: contexts_for_def kept_def)
    then show ?thesis
      using False snoc.IH
      by (simp add: aggregate_snoc handle_match_skipped matches_for_add_result
          first_occurrences_snoc)
  qed
qed

lemma distinct_filepath_aggregate: "distinct (map filepath (aggregate ms))"
  by (simp add: filepath_aggregate)

lemma matches_aggregate:
  "e \<in> set (aggregate ms) \<Longrightarrow> matches e = first_occurrences (contexts_for (filepath e) ms)"
  using matches_for_member [OF distinct_filepath_aggregate] matches_for_aggregate by metis

text \<open>The two nested loops visit the parsed lines of all patterns one after the other.\<close>

lemma foldl_handle_line:
  "foldl handle_line rs ls = foldl handle_match rs (map parse_line ls)"
  by (induction ls arbitrary: rs) (simp_all add: handle_line_def)

lemma foldl_scan_pattern:
  "foldl (scan_pattern grep) rs ps = foldl handle_match rs (raw_matches grep ps)"
proof (induction ps arbitrary: rs)
  case Nil
  show ?case by (simp add: raw_matches_def)
next
  case (Cons p ps)
  have step: "scan_pattern grep rs p = foldl handle_match rs (raw_matches grep [p])"
    by (simp add: scan_pattern_def raw_matches_def foldl_handle_line split: grep_result.splits)
  have "raw_matches grep (p # ps) = raw_matches grep [p] @ raw_matches grep ps"
    by (simp add: raw_matches_def)
  then show ?case
    by (simp add: Cons.IH step)
qed

lemma findMockUsageWith_aggregate:
  "findMockUsageWith grep ps = aggregate (raw_matches grep ps)"
  by (simp add: findMockUsageWith_def aggregate_def foldl_scan_pattern)

section \<open>Claims about the aggregation\<close>

text \<open>
  C1. Whatever the sequence of parsed matches, every entry of the result stores each
  context once: its \<open>matches\<close> are the contexts of the kept matches of its file, each at
  its first occurrence and in the order of the first occurrences. Which pattern found a
  line plays no part: the result of the two loops is the aggregation of the parsed
  lines of all patterns.
\<close>

theorem contexts_deduplicated:
  "(\<forall>e \<in> set (aggregate ms).
      distinct (matches e) \<and>
      matches e = first_occurrences (contexts_for (filepath e) ms)) \<and>
   findMockUsageWith grep ps = aggregate (raw_matches grep ps)"
  using matches_aggregate [of _ ms] findMockUsageWith_aggregate [of grep ps]
  by (metis distinct_first_occurrences)

text \<open>
  The scenario of the specification: the patterns \<^verbatim>\<open>mock\<close> and \<^verbatim>\<open>MOCK_\<close>
  both find the same line of the same file, and the file's entry stores the line once.
\<close>

theorem contexts_deduplicated_witness:
  "findMockUsageWith (\<lambda>p. GrepOutput ''./src/data.ts:const MOCK_USERS = mock();\<newline>'')
     [''mock'', ''MOCK_'']
   = [\<lparr>filepath = ''./src/data.ts'', matches = [''const MOCK_USERS = mock();'']\<rparr>] \<and>
   \<lparr>filepath = ''./src/data.ts'', matches = [''const MOCK_USERS = mock();'']\<rparr>
     \<in> set (aggregate [(''./src/data.ts'', ''const MOCK_USERS = mock();''),
                        (''./src/data.ts'', ''const MOCK_USERS = mock();'')]) \<and>
   distinct (matches \<lparr>filepath = ''./src/data.ts'', matches = [''const MOCK_USERS = mock();'']\<rparr>)"
proof -
  let ?g = "\<lambda>p :: string. GrepOutput ''./src/data.ts:const MOCK_USERS = mock();\<newline>''"
  let ?m = "(''./src/data.ts'', ''const MOCK_USERS = mock();'')"
  let ?e = "\<lparr>filepath = ''./src/data.ts'', matches = [''const MOCK_USERS = mock();'']\<rparr>"
  have raw: "raw_matches ?g [''mock'', ''MOCK_''] = [?m, ?m]"
    by (simp add: raw_matches_def lines_of_def split_on_def parse_line_def)
  have agg: "aggregate [?m, ?m] = [?e]"
    by (simp add: aggregate_def handle_match_def is_test_file_def is_node_modules_def
        is_real_data_def toLowerCase_def lower_char_def)
  have mem: "?e \<in> set (aggregate [?m, ?m])"
    by (simp only: agg list.set_intros)
  from contexts_deduplicated [of "[?m, ?m]" ?g "[''mock'', ''MOCK_'']"] mem raw agg
  show ?thesis
    by (simp only: list.set_intros) auto
qed

text \<open>
  C2. No two entries of the result have the same path, and with no match to aggregate
  (no parsed match, or no pattern to search for) the result is empty.
\<close>

theorem one_group_per_filepath:
  "distinct (map filepath (aggregate ms)) \<and>
   aggregate [] = [] \<and>
   distinct (map filepath (findMockUsageWith grep ps)) \<and>
   distinct (map filepath (findMockUsage grep)) \<and>
   findMockUsageWith grep [] = []"
  by (simp add: distinct_filepath_aggregate findMockUsageWith_aggregate findMockUsage_def
      raw_matches_def)

section \<open>The classification, step by step\<close>

lemma module_of_first_matching_rule: "module_of fp = first_matching_rule MODULE_RULES fp"
  by (simp add: module_of_def MODULE_RULES_def)

lemma keys_push_entry:
  "map fst (push_entry mods m e) =
     (if m \<in> fst ` set mods then map fst mods else map fst mods @ [m])"
  by (induction mods m e rule: push_entry.induct) auto

lemma bucket_of_push_entry:
  "bucket_of k (push_entry mods m e) =
     (if k = m then bucket_of k mods @ [e] else bucket_of k mods)"
  by (induction mods m e rule: push_entry.induct) (auto simp: bucket_of_def)

lemma bucket_of_member:
  "distinct (map fst mods) \<Longrightarrow> (k, es) \<in> set mods \<Longrightarrow> bucket_of k mods = es"
  by (simp add: bucket_of_def)

lemma mset_push_entry:
  "mset (concat (map snd (push_entry mods m e))) = add_mset e (mset (concat (map snd mods)))"
  by (induction mods m e rule: push_entry.induct) auto

lemma categorize_Nil [simp]: "categorizeMockUsageByModule [] = []"
  by (simp add: categorizeMockUsageByModule_def)

lemma categorize_snoc:
  "categorizeMockUsageByModule (gs @ [g]) =
     push_entry (categorizeMockUsageByModule gs) (module_of (filepath g)) g"
  by (simp add: categorizeMockUsageByModule_def)

lemma keys_categorize:
  "map fst (categorizeMockUsageByModule gs) =
     first_occurrences (map (\<lambda>e. module_of (filepath e)) gs)"
proof (induction gs rule: rev_induct)
  case Nil
  show ?case by simp
next
  case (snoc g gs)
  have "set (map fst (categorizeMockUsageByModule gs)) = (\<lambda>e. module_of (filepath e)) ` set gs"
    by (simp only: snoc.IH set_first_occurrences set_map)
  then have "module_of (filepath g) \<in> fst ` set (categorizeMockUsageByModule gs) \<longleftrightarrow>
      module_of (filepath g) \<in> (\<lambda>e. module_of (filepath e)) ` set gs"
    by simp
  then show ?case
    using snoc.IH by (simp add: categorize_snoc keys_push_entry first_occurrences_snoc)
qed

lemma bucket_of_categorize:
  "bucket_of k (categorizeMockUsageByModule gs) = filter (\<lambda>e. module_of (filepath e) = k) gs"
proof (induction gs rule: rev_induct)
  case Nil
  show ?case by (simp add: bucket_of_def)
next
  case (snoc g gs)
  then show ?case
    by (auto simp: categorize_snoc bucket_of_push_entry)
qed

lemma mset_categorize:
  "mset (concat (map snd (categorizeMockUsageByModule gs))) = mset gs"
  by (induction gs rule: rev_induct) (simp_all add: categorize_snoc mset_push_entry)

lemma distinct_keys_categorize: "distinct (map fst (categorizeMockUsageByModule gs))"
  by (simp add: keys_categorize)

lemma bucket_categorize:
  "(k, es) \<in> set (categorizeMockUsageByModule gs) \<Longrightarrow>
     es = filter (\<lambda>e. module_of (filepath e) = k) gs"
  using bucket_of_member [OF distinct_keys_categorize] bucket_of_categorize by metis

section \<open>Claims about the classification\<close>

text \<open>
  C3. The module of a path is that of the first rule, in the fixed order of the rules,
  whose substring occurs in the path, and \<^verbatim>\<open>unknown\<close> when no rule applies. The
  keys of the module table are the modules of the entries in the order of their first
  occurrence, without repetition; the array of a key holds the entries of that module, all
  of them and in the order of the input, and is never empty; every entry of the input is
  in the array of one key only, and the arrays together hold the input entries, each as
  often as the input does.
\<close>

theorem classification_total_first_match:
  "module_of fp = first_matching_rule MODULE_RULES fp \<and>
   map fst (categorizeMockUsageByModule gs) =
     first_occurrences (map (\<lambda>e. module_of (filepath e)) gs) \<and>
   distinct (map fst (categorizeMockUsageByModule gs)) \<and>
   (\<forall>b \<in> set (categorizeMockUsageByModule gs).
      snd b = filter (\<lambda>e. module_of (filepath e) = fst b) gs \<and> snd b \<noteq> []) \<and>
   (\<forall>g \<in> set gs. \<exists>!b. b \<in> set (categorizeMockUsageByModule gs) \<and> g \<in> set (snd b)) \<and>
   mset (concat (map snd (categorizeMockUsageByModule gs))) = mset gs"
proof -
  let ?cat = "categorizeMockUsageByModule gs"
  have b: "snd b = filter (\<lambda>e. module_of (filepath e) = fst b) gs" if "b \<in> set ?cat" for b
    using that bucket_categorize [of "fst b" "snd b" gs] by simp
  have ne: "snd b \<noteq> []" if "b \<in> set ?cat" for b
  proof -
    have "fst b \<in> set (map fst ?cat)" using that by simp
    then have "fst b \<in> (\<lambda>e. module_of (filepath e)) ` set gs"
      by (simp only: keys_categorize set_first_occurrences set_map)
    then show ?thesis
      using b [OF that] by (auto simp: filter_empty_conv)
  qed
  have one: "\<exists>!b. b \<in> set ?cat \<and> g \<in> set (snd b)" if g: "g \<in> set gs" for g
  proof -
    have "module_of (filepath g) \<in> set (map fst ?cat)"
      using g by (simp only: keys_categorize set_first_occurrences set_map) simp
    then obtain b where bin: "b \<in> set ?cat" and bk: "fst b = module_of (filepath g)"
      by auto
    have gb: "g \<in> set (snd b)"
      using b [OF bin] bk g by simp
    have "b' = b" if "b' \<in> set ?cat" "g \<in> set (snd b')" for b'
    proof -
      have "fst b' = module_of (filepath g)"
        using b [OF that(1)] that(2) by auto
      then have "fst b' = fst b" using bk by simp
      moreover have "snd b' = snd b"
        using b [OF that(1)] b [OF bin] \<open>fst b' = fst b\<close> by simp
      ultimately show ?thesis by (simp add: prod_eq_iff)
    qed
    then show ?thesis using bin gb by blast
  qed
  show ?thesis
    using module_of_first_matching_rule keys_categorize distinct_keys_categorize b ne one
      mset_categorize by blast
qed


text \<open>
  Three entries: the first path contains both \<^verbatim>\<open>/assessment/\<close> and
  \<^verbatim>\<open>/auth/\<close> and goes to \<^verbatim>\<open>auth\<close>, whose test comes first; the second
  matches no rule.
\<close>

theorem classification_total_first_match_witness:
  "categorizeMockUsageByModule
     [\<lparr>filepath = ''./src/assessment/auth/login.ts'', matches = [''const mockUser = 1;'']\<rparr>,
      \<lparr>filepath = ''./lib/util.ts'', matches = [''// fake'']\<rparr>,
      \<lparr>filepath = ''./src/auth/token.ts'', matches = [''dummy token'']\<rparr>]
   = [(''auth'',
        [\<lparr>filepath = ''./src/assessment/auth/login.ts'', matches = [''const mockUser = 1;'']\<rparr>,
         \<lparr>filepath = ''./src/auth/token.ts'', matches = [''dummy token'']\<rparr>]),
      (''unknown'', [\<lparr>filepath = ''./lib/util.ts'', matches = [''// fake'']\<rparr>])] \<and>
   module_of ''./src/assessment/auth/login.ts'' = ''auth'' \<and>
   first_matching_rule MODULE_RULES ''./src/assessment/auth/login.ts'' = ''auth'' \<and>
   filter (\<lambda>e. module_of (filepath e) = ''unknown'')
     [\<lparr>filepath = ''./src/assessment/auth/login.ts'', matches = [''const mockUser = 1;'']\<rparr>,
      \<lparr>filepath = ''./lib/util.ts'', matches = [''// fake'']\<rparr>,
      \<lparr>filepath = ''./src/auth/token.ts'', matches = [''dummy token'']\<rparr>]
   = [\<lparr>filepath = ''./lib/util.ts'', matches = [''// fake'']\<rparr>]"
proof -
  let ?e1 = "\<lparr>filepath = ''./src/assessment/auth/login.ts'', matches = [''const mockUser = 1;'']\<rparr>"
  let ?e2 = "\<lparr>filepath = ''./lib/util.ts'', matches = [''// fake'']\<rparr>"
  let ?e3 = "\<lparr>filepath = ''./src/auth/token.ts'', matches = [''dummy token'']\<rparr>"
  have m1: "module_of ''./src/assessment/auth/login.ts'' = ''auth''"
    by (simp add: module_of_def)
  have m2: "module_of ''./lib/util.ts'' = ''unknown''"
    by (simp add: module_of_def)
  have m3: "module_of ''./src/auth/token.ts'' = ''auth''"
    by (simp add: module_of_def)
  have cat: "categorizeMockUsageByModule [?e1, ?e2, ?e3] =
      [(''auth'', [?e1, ?e3]), (''unknown'', [?e2])]"
    by (simp add: categorizeMockUsageByModule_def m1 m2 m3)
  have mem: "(''unknown'', [?e2]) \<in> set (categorizeMockUsageByModule [?e1, ?e2, ?e3])"
    by (simp only: cat) simp
  note inst = classification_total_first_match
    [of "''./src/assessment/auth/login.ts''" "[?e1, ?e2, ?e3]"]
  from inst have r: "first_matching_rule MODULE_RULES ''./src/assessment/auth/login.ts'' = ''auth''"
    using m1 by simp
  from inst mem have f: "snd (''unknown'', [?e2]) =
      filter (\<lambda>e. module_of (filepath e) = fst (''unknown'', [?e2])) [?e1, ?e2, ?e3]"
    by blast
  show ?thesis
    using cat m1 r f by simp
qed

section \<open>The aggregation and the words of the specification\<close>

lemma remaining_EXCLUSIONS: "remaining EXCLUSIONS ms = kept ms"
  by (simp add: remaining_def kept_def EXCLUSIONS_def skipped_def)

lemma entries_by_path:
  assumes "distinct (map filepath rs)"
  shows "rs = map (\<lambda>fp. \<lparr>filepath = fp, matches = matches_for fp rs\<rparr>) (map filepath rs)"
proof -
  have "\<lparr>filepath = filepath e, matches = matches_for (filepath e) rs\<rparr> = e" if "e \<in> set rs" for e
    using matches_for_member [OF assms that] by simp
  then have "map (\<lambda>e. \<lparr>filepath = filepath e, matches = matches_for (filepath e) rs\<rparr>) rs = rs"
    by (simp add: map_idI)
  then show ?thesis
    by (simp add: comp_def)
qed

lemma aggregate_refines_spec: "aggregate ms = aggregate_spec EXCLUSIONS ms"
proof -
  have "aggregate ms =
      map (\<lambda>fp. \<lparr>filepath = fp, matches = matches_for fp (aggregate ms)\<rparr>)
        (map filepath (aggregate ms))"
    by (rule entries_by_path [OF distinct_filepath_aggregate])
  then show ?thesis
    by (simp add: matches_for_aggregate filepath_aggregate aggregate_spec_def
        remaining_EXCLUSIONS contexts_for_def)
qed

lemma filepath_aggregate_spec:
  "map filepath (aggregate_spec preds ms) = first_occurrences (map fst (remaining preds ms))"
  by (simp add: aggregate_spec_def comp_def)

lemma length_first_occurrences: "length (first_occurrences xs) = card (set xs)"
  using distinct_card [of "first_occurrences xs"] by simp

lemma length_aggregate_spec:
  "length (aggregate_spec preds ms) = card (fst ` set (remaining preds ms))"
  using length_first_occurrences [of "map fst (remaining preds ms)"]
  by (simp add: aggregate_spec_def)

lemma total_contexts_aggregate_spec:
  "total_contexts (aggregate_spec preds ms) = card (set (remaining preds ms))"
proof -
  let ?R = "set (remaining preds ms)"
  let ?F = "fst ` ?R"
  have "total_contexts (aggregate_spec preds ms) =
      sum_list (map (\<lambda>fp. card (snd ` {m \<in> ?R. fst m = fp}))
        (first_occurrences (map fst (remaining preds ms))))"
    by (simp add: total_contexts_def aggregate_spec_def comp_def length_first_occurrences)
  also have "\<dots> = (\<Sum>fp\<in>?F. card (snd ` {m \<in> ?R. fst m = fp}))"
    by (simp add: sum_list_distinct_conv_sum_set)
  also have "\<dots> = (\<Sum>fp\<in>?F. card {m \<in> ?R. fst m = fp})"
  proof (rule sum.cong)
    fix fp
    have "inj_on snd {m \<in> ?R. fst m = fp}"
      by (auto simp: inj_on_def prod_eq_iff)
    then show "card (snd ` {m \<in> ?R. fst m = fp}) = card {m \<in> ?R. fst m = fp}"
      by (rule card_image)
  qed simp
  also have "\<dots> = card ?R"
    using sum.image_gen [of ?R "\<lambda>m. 1 :: nat" fst] by simp
  finally show ?thesis .
qed


lemma remaining_snoc:
  "remaining (preds @ [p]) ms = filter (\<lambda>m. \<not> p m) (remaining preds ms)"
  by (auto simp: remaining_def intro: filter_cong)

lemma set_raw_matches:
  "set (raw_matches grep ps) =
     (\<Union>p\<in>set ps. set (case grep p of GrepOutput output \<Rightarrow> map parse_line (lines_of output)
                                     | GrepFailed status \<Rightarrow> []))"
  by (simp add: raw_matches_def)

lemma set_contexts_for:
  "set (contexts_for fp ms) = snd ` {m \<in> set ms. \<not> skipped m \<and> fst m = fp}"
  by (auto simp: contexts_for_def kept_def)

lemma set_filepath_aggregate:
  "set (map filepath (aggregate ms)) = fst ` {m \<in> set ms. \<not> skipped m}"
  by (simp only: filepath_aggregate set_first_occurrences set_map kept_def set_filter)

lemma findMockUsageWith_two_files:
  "findMockUsageWith grep_two_files MOCK_PATTERNS =
     [\<lparr>filepath = ''./src/a.ts'', matches = [''const a = mock();'']\<rparr>,
      \<lparr>filepath = ''./src/c.ts'', matches = [''mock(1);'', ''fake(0);'']\<rparr>]"
  by (simp add: findMockUsageWith_def MOCK_PATTERNS_def scan_pattern_def grep_two_files_def
      lines_of_def split_on_def handle_line_def parse_line_def handle_match_def
      is_test_file_def is_node_modules_def is_real_data_def toLowerCase_def lower_char_def)

lemma findMockUsageWith_two_files_rev:
  "findMockUsageWith grep_two_files (rev MOCK_PATTERNS) =
     [\<lparr>filepath = ''./src/c.ts'', matches = [''fake(0);'', ''mock(1);'']\<rparr>,
      \<lparr>filepath = ''./src/a.ts'', matches = [''const a = mock();'']\<rparr>]"
  by (simp add: findMockUsageWith_def MOCK_PATTERNS_def scan_pattern_def grep_two_files_def
      lines_of_def split_on_def handle_line_def parse_line_def handle_match_def
      is_test_file_def is_node_modules_def is_real_data_def toLowerCase_def lower_char_def)

lemma raw_matches_grep_nothing: "raw_matches grep_nothing MOCK_PATTERNS = []"
  by (simp add: raw_matches_def grep_nothing_def)

section \<open>The entry of a kept match, its module and its place in the report\<close>








lemma loader_module: "module_of ''./src/assessment/loader.ts'' = ''assessment''"
  by (simp add: module_of_def)

lemma capitalize_assessment: "capitalize ''assessment'' = ''Assessment''"
  by (simp add: capitalize_def toUpperCase_def upper_char_def)





section \<open>The file tree after a run\<close>

lemma report_file_not_visited: "\<not> grep_visits report_file"
  by (simp add: grep_visits_def report_file_def suffix_to_prefix)

lemma visited_writeFileSync:
  "\<not> grep_visits path \<Longrightarrow>
     filter (\<lambda>f. grep_visits (fst f)) (writeFileSync tree path content) =
     filter (\<lambda>f. grep_visits (fst f)) tree"
  by (induction tree path content rule: writeFileSync.induct) auto

lemma map_of_writeFileSync: "map_of (writeFileSync tree path content) path = Some content"
  by (induction tree path content rule: writeFileSync.induct) auto

lemma map_of_writeFileSync_other:
  "q \<noteq> path \<Longrightarrow> map_of (writeFileSync tree path content) q = map_of tree q"
  by (induction tree path content rule: writeFileSync.induct) auto

lemma execSync_grep_after_run:
  "execSync_grep search (snd (run_main search io_ok tree)) = execSync_grep search tree"
  by (rule ext)
    (simp add: execSync_grep_def run_main_def Let_def visited_writeFileSync
      report_file_not_visited split: option.splits)

lemma findMockUsage_loader_tree:
  "findMockUsage (execSync_grep literal_search loader_tree) =
     [\<lparr>filepath = ''./src/assessment/loader.ts'', matches = [''const mockData = load();'']\<rparr>]"
  by (simp add: findMockUsage_def findMockUsageWith_def MOCK_PATTERNS_def scan_pattern_def
      execSync_grep_def loader_tree_def grep_visits_def suffix_to_prefix literal_search_def
      lines_of_def split_on_def handle_line_def parse_line_def handle_match_def
      is_test_file_def is_node_modules_def is_real_data_def toLowerCase_def lower_char_def)

section \<open>Where an entry is rendered in the report\<close>

lemma includes_str_concat_member:
  assumes "y \<in> set ys"
  shows "includes_str (pre @ concat ys @ post) y"
proof -
  obtain as bs where "ys = as @ y # bs"
    using assms by (auto dest: split_list)
  then have "pre @ concat ys @ post = (pre @ concat as) @ y @ (concat bs @ post)"
    by simp
  then show ?thesis
    unfolding includes_str_iff by blast
qed

lemma includes_str_trans:
  "includes_str b a \<Longrightarrow> includes_str c b \<Longrightarrow> includes_str c a"
  unfolding includes_str_sublist by (rule sublist_order.order_trans)

lemma render_module_includes_entry:
  "e \<in> set (snd b) \<Longrightarrow> includes_str (render_module b) (render_entry e)"
  using includes_str_concat_member
    [of "render_entry e" "map render_entry (snd b)"
        "(''### '' @ capitalize (fst b) @ '' Module\<newline>\<newline>'') @ ''Files with mock data:\<newline>\<newline>''" "[]"]
  by (simp add: render_module_def)

lemma report_includes_module:
  "b \<in> set mods \<Longrightarrow> includes_str (report_content mods) (render_module b)"
  using includes_str_concat_member [of "render_module b" "map render_module mods" report_header report_footer]
  by (simp add: report_content_def)

section \<open>Claims about the whole run\<close>

text \<open>
  C4, as the code has it. For two orders of the same patterns the results have the same
  paths, and the entries of a path store the same contexts. The order of the entries and
  the order of the contexts within an entry are those of the first occurrences among the
  parsed lines, taken pattern after pattern, so they follow the order of the patterns.
\<close>

theorem pattern_order_only_reorders:
  assumes "mset ps = mset ps'"
  shows "mset (map filepath (findMockUsageWith grep ps)) =
           mset (map filepath (findMockUsageWith grep ps')) \<and>
         (\<forall>e \<in> set (findMockUsageWith grep ps).
            \<exists>e' \<in> set (findMockUsageWith grep ps').
              filepath e' = filepath e \<and> mset (matches e') = mset (matches e)) \<and>
         map filepath (findMockUsageWith grep ps) =
           first_occurrences (map fst (kept (raw_matches grep ps))) \<and>
         (\<forall>e \<in> set (findMockUsageWith grep ps).
            matches e = first_occurrences (contexts_for (filepath e) (raw_matches grep ps)))"
proof -
  let ?ms = "raw_matches grep ps" and ?ms' = "raw_matches grep ps'"
  have "set ps = set ps'"
    using assms by (rule mset_eq_setD)
  then have raw: "set ?ms = set ?ms'"
    by (simp only: set_raw_matches)
  then have paths: "set (map filepath (aggregate ?ms)) = set (map filepath (aggregate ?ms'))"
    by (simp only: set_filepath_aggregate)
  then have p1: "mset (map filepath (aggregate ?ms)) = mset (map filepath (aggregate ?ms'))"
    using set_eq_iff_mset_eq_distinct [OF distinct_filepath_aggregate distinct_filepath_aggregate]
    by blast
  have p2: "\<exists>e' \<in> set (aggregate ?ms'). filepath e' = filepath e \<and> mset (matches e') = mset (matches e)"
    if e: "e \<in> set (aggregate ?ms)" for e
  proof -
    have "filepath e \<in> set (map filepath (aggregate ?ms'))"
      using e paths by auto
    then obtain e' where e': "e' \<in> set (aggregate ?ms')" and same: "filepath e' = filepath e"
      by auto
    have "set (contexts_for (filepath e) ?ms') = set (contexts_for (filepath e) ?ms)"
      using raw by (simp only: set_contexts_for)
    then have "set (matches e') = set (matches e)"
      using matches_aggregate [OF e] matches_aggregate [OF e'] same by simp
    moreover have "distinct (matches e')" "distinct (matches e)"
      using matches_aggregate [OF e] matches_aggregate [OF e'] by simp_all
    ultimately have "mset (matches e') = mset (matches e)"
      using set_eq_iff_mset_eq_distinct by blast
    then show ?thesis
      using e' same by blast
  qed
  have p3: "matches e = first_occurrences (contexts_for (filepath e) ?ms)"
    if "e \<in> set (aggregate ?ms)" for e
    using that by (rule matches_aggregate)
  show ?thesis
    unfolding findMockUsageWith_aggregate
    by (intro conjI ballI p1 p2 p3 filepath_aggregate)
qed

text \<open>
  The configured patterns and the same patterns in reverse order, on the tree with two
  files: the entry of \<^verbatim>\<open>src/c.ts\<close> has a counterpart with the same contexts.
\<close>

theorem pattern_order_only_reorders_witness:
  "mset MOCK_PATTERNS = mset (rev MOCK_PATTERNS) \<and>
   \<lparr>filepath = ''./src/c.ts'', matches = [''mock(1);'', ''fake(0);'']\<rparr>
     \<in> set (findMockUsageWith grep_two_files MOCK_PATTERNS) \<and>
   (\<exists>e' \<in> set (findMockUsageWith grep_two_files (rev MOCK_PATTERNS)).
      filepath e' = ''./src/c.ts'' \<and>
      mset (matches e') = mset [''mock(1);'', ''fake(0);'']) \<and>
   mset (map filepath (findMockUsageWith grep_two_files MOCK_PATTERNS)) =
     mset (map filepath (findMockUsageWith grep_two_files (rev MOCK_PATTERNS)))"
proof -
  let ?e = "\<lparr>filepath = ''./src/c.ts'', matches = [''mock(1);'', ''fake(0);'']\<rparr>"
  have h: "mset MOCK_PATTERNS = mset (rev MOCK_PATTERNS)"
    by simp
  have mem: "?e \<in> set (findMockUsageWith grep_two_files MOCK_PATTERNS)"
    by (simp only: findMockUsageWith_two_files) simp
  from pattern_order_only_reorders [OF h, of grep_two_files] mem
  have "\<exists>e' \<in> set (findMockUsageWith grep_two_files (rev MOCK_PATTERNS)).
      filepath e' = filepath ?e \<and> mset (matches e') = mset (matches ?e)"
    by blast
  then have "\<exists>e' \<in> set (findMockUsageWith grep_two_files (rev MOCK_PATTERNS)).
      filepath e' = ''./src/c.ts'' \<and> mset (matches e') = mset [''mock(1);'', ''fake(0);'']"
    by simp
  moreover have "mset (map filepath (findMockUsageWith grep_two_files MOCK_PATTERNS)) =
      mset (map filepath (findMockUsageWith grep_two_files (rev MOCK_PATTERNS)))"
    using pattern_order_only_reorders [OF h, of grep_two_files] by (rule conjunct1)
  ultimately show ?thesis
    using h mem by (intro conjI)
qed

text \<open>
  C4, as the specification states it, fails: on the tree with two files the reversed
  pattern list gives the entries in the other order, and the contexts of
  \<^verbatim>\<open>src/c.ts\<close> in the other order.
\<close>

theorem pattern_order_counterexample:
  "mset (rev MOCK_PATTERNS) = mset MOCK_PATTERNS \<and>
   findMockUsageWith grep_two_files MOCK_PATTERNS =
     [\<lparr>filepath = ''./src/a.ts'', matches = [''const a = mock();'']\<rparr>,
      \<lparr>filepath = ''./src/c.ts'', matches = [''mock(1);'', ''fake(0);'']\<rparr>] \<and>
   findMockUsageWith grep_two_files (rev MOCK_PATTERNS) =
     [\<lparr>filepath = ''./src/c.ts'', matches = [''fake(0);'', ''mock(1);'']\<rparr>,
      \<lparr>filepath = ''./src/a.ts'', matches = [''const a = mock();'']\<rparr>] \<and>
   findMockUsageWith grep_two_files (rev MOCK_PATTERNS) \<noteq>
     findMockUsageWith grep_two_files MOCK_PATTERNS"
  by (simp only: findMockUsageWith_two_files findMockUsageWith_two_files_rev mset_rev) simp

text \<open>
  C5, as the code has it. When no search returns a line, the result of the scan is empty,
  the module table is empty, and the report that is written is the fixed heading text
  followed at once by the fixed closing text; the process ends with status 0, the report
  file being written.
\<close>

theorem no_match_report:
  assumes "raw_matches grep MOCK_PATTERNS = []"
  shows "findMockUsage grep = [] \<and>
         categorizeMockUsageByModule (findMockUsage grep) = [] \<and>
         main grep True = \<lparr>report = Some (report_header @ report_footer), exit_status = 0\<rparr>"
proof -
  have "findMockUsage grep = []"
    using assms by (simp add: findMockUsage_def findMockUsageWith_aggregate)
  then show ?thesis
    by (simp add: main_def report_content_def)
qed

text \<open>The tree in which nothing matches.\<close>

theorem no_match_report_witness:
  "raw_matches grep_nothing MOCK_PATTERNS = [] \<and>
   findMockUsage grep_nothing = [] \<and>
   main grep_nothing True = \<lparr>report = Some (report_header @ report_footer), exit_status = 0\<rparr>"
  using no_match_report [OF raw_matches_grep_nothing] raw_matches_grep_nothing by simp

text \<open>
  C5, as the specification states it, fails: in the report of the tree in which nothing
  matches there is no text between the fixed heading and the fixed closing text, so no
  summary states that nothing was found.
\<close>

theorem no_findings_summary_counterexample:
  "\<not> (\<exists>summary. summary \<noteq> [] \<and>
        report (main grep_nothing True) = Some (report_header @ summary @ report_footer))"
proof -
  have "findMockUsage grep_nothing = []"
    using raw_matches_grep_nothing by (simp add: findMockUsage_def findMockUsageWith_aggregate)
  then have "report (main grep_nothing True) = Some (report_header @ report_footer)"
    by (simp add: main_def report_content_def)
  then show ?thesis by simp
qed

text \<open>
  C6. The aggregation of the script is the aggregation of the specification with the
  three tests of the script as its exclusion predicates. For every sequence of
  predicates the paths of the result are the paths of the matches that no predicate
  excludes, hence paths of the input; and with one more predicate the result has no more
  entries and no more stored contexts than without it.
\<close>

theorem exclusions_filter_monotone:
  "aggregate ms = aggregate_spec EXCLUSIONS ms \<and>
   set (map filepath (aggregate_spec preds ms)) =
     fst ` {m \<in> set ms. \<not> list_ex (\<lambda>p. p m) preds} \<and>
   set (map filepath (aggregate_spec preds ms)) \<subseteq> fst ` set ms \<and>
   length (aggregate_spec (preds @ [p]) ms) \<le> length (aggregate_spec preds ms) \<and>
   total_contexts (aggregate_spec (preds @ [p]) ms) \<le> total_contexts (aggregate_spec preds ms)"
proof -
  have paths: "set (map filepath (aggregate_spec preds ms)) =
      fst ` {m \<in> set ms. \<not> list_ex (\<lambda>p. p m) preds}"
    by (simp only: filepath_aggregate_spec set_first_occurrences set_map remaining_def set_filter)
  have sub: "set (remaining (preds @ [p]) ms) \<subseteq> set (remaining preds ms)"
    by (auto simp: remaining_snoc)
  have "card (fst ` set (remaining (preds @ [p]) ms)) \<le> card (fst ` set (remaining preds ms))"
    by (rule card_mono) (use sub in auto)
  then have len: "length (aggregate_spec (preds @ [p]) ms) \<le> length (aggregate_spec preds ms)"
    by (simp only: length_aggregate_spec)
  have "card (set (remaining (preds @ [p]) ms)) \<le> card (set (remaining preds ms))"
    by (rule card_mono) (use sub in auto)
  then have tot: "total_contexts (aggregate_spec (preds @ [p]) ms)
      \<le> total_contexts (aggregate_spec preds ms)"
    by (simp only: total_contexts_aggregate_spec)
  show ?thesis
    using aggregate_refines_spec [of ms] paths len tot by auto
qed




text \<open>
  C8. A second run, in the tree that a first run has left, ends as a run in the tree
  before the first run ends: the same report text and the same status. The first run
  changes the tree only by writing the report, and the report is no file that the search
  reads. The report of a run is the rendering of the module table of the matches found in
  the tree, and it is the content of the report file after the run.
\<close>

theorem second_run_same_report:
  "fst (run_main search io_ok (snd (run_main search io_ok' tree))) = fst (run_main search io_ok tree) \<and>
   report (fst (run_main search True tree)) =
     Some (report_content (categorizeMockUsageByModule (findMockUsage (execSync_grep search tree)))) \<and>
   map_of (snd (run_main search True tree)) report_file = report (fst (run_main search True tree))"
proof -
  have "fst (run_main search io_ok (snd (run_main search io_ok' tree))) =
      main (execSync_grep search (snd (run_main search io_ok' tree))) io_ok"
    by (simp add: run_main_def Let_def)
  also have "\<dots> = main (execSync_grep search tree) io_ok"
    by (simp only: execSync_grep_after_run)
  also have "\<dots> = fst (run_main search io_ok tree)"
    by (simp add: run_main_def Let_def)
  finally have twice: "fst (run_main search io_ok (snd (run_main search io_ok' tree))) =
      fst (run_main search io_ok tree)" .
  have written: "report (fst (run_main search True tree)) =
      Some (report_content (categorizeMockUsageByModule (findMockUsage (execSync_grep search tree))))"
    by (simp add: run_main_def main_def Let_def)
  have stored: "map_of (snd (run_main search True tree)) report_file =
      report (fst (run_main search True tree))"
    by (simp add: run_main_def main_def Let_def map_of_writeFileSync)
  show ?thesis
    using twice written stored by (intro conjI)
qed

text \<open>
  Two runs in the tree with \<^verbatim>\<open>README.md\<close> and \<^verbatim>\<open>src/assessment/loader.ts\<close>,
  with the search for substrings: the report of the first run, which is in the tree of
  the second run and contains the word \<^verbatim>\<open>mock\<close>, does not change the second report.
\<close>

theorem second_run_same_report_witness:
  "fst (run_main literal_search True (snd (run_main literal_search True loader_tree))) =
     fst (run_main literal_search True loader_tree) \<and>
   report (fst (run_main literal_search True loader_tree)) =
     Some (report_header @
           ''### Assessment Module\<newline>\<newline>'' @
           ''Files with mock data:\<newline>\<newline>'' @
           ''#### `./src/assessment/loader.ts`\<newline>\<newline>'' @
           ''Context (showing 1 of ${entry.matches.length} matches):\<newline>\<newline>'' @
           ''```\<newline>const mockData = load();\<newline>```\<newline>\<newline>'' @
           report_footer) \<and>
   map_of (snd (run_main literal_search True loader_tree)) report_file =
     report (fst (run_main literal_search True loader_tree))"
proof -
  have "report_content (categorizeMockUsageByModule
      (findMockUsage (execSync_grep literal_search loader_tree))) =
      report_header @
      ''### Assessment Module\<newline>\<newline>'' @
      ''Files with mock data:\<newline>\<newline>'' @
      ''#### `./src/assessment/loader.ts`\<newline>\<newline>'' @
      ''Context (showing 1 of ${entry.matches.length} matches):\<newline>\<newline>'' @
      ''```\<newline>const mockData = load();\<newline>```\<newline>\<newline>'' @
      report_footer"
    by (simp add: findMockUsage_loader_tree categorizeMockUsageByModule_def loader_module
        report_content_def render_module_def render_entry_def context_header_def
        capitalize_assessment)
  then show ?thesis
    using second_run_same_report [of literal_search True True loader_tree] by simp
qed

text \<open>
  C9. For every entry with at least one context, in any module of the table, the text
  rendered for the entry is the file heading, then the line
  \<^verbatim>\<open>Context (showing 1 of ${entry.matches.length} matches):\<close> as it stands, then
  the first context in a code fence; and this text is part of the report.
\<close>

theorem context_header_is_literal:
  assumes "b \<in> set mods" and "e \<in> set (snd b)" and "matches e \<noteq> []"
  shows "render_entry e =
           ''#### `'' @ filepath e @ ''`\<newline>\<newline>'' @
           ''Context (showing 1 of ${entry.matches.length} matches):\<newline>\<newline>'' @
           ''```\<newline>'' @ hd (matches e) @ ''\<newline>```\<newline>\<newline>'' \<and>
         includes_str (report_content mods) (render_entry e)"
proof -
  have "includes_str (report_content mods) (render_entry e)"
    using includes_str_trans [OF render_module_includes_entry [OF assms(2)]
        report_includes_module [OF assms(1)]] .
  moreover have "render_entry e =
      ''#### `'' @ filepath e @ ''`\<newline>\<newline>'' @
      ''Context (showing 1 of ${entry.matches.length} matches):\<newline>\<newline>'' @
      ''```\<newline>'' @ hd (matches e) @ ''\<newline>```\<newline>\<newline>''"
    using assms(3) by (simp add: render_entry_def context_header_def split: list.splits)
  ultimately show ?thesis by simp
qed

text \<open>An entry with two contexts: the number 2 appears nowhere in its text.\<close>

theorem context_header_is_literal_witness:
  "(''ui'', [\<lparr>filepath = ''./src/ui/App.tsx'', matches = [''const fakeUser = 1;'', ''// dummy'']\<rparr>])
     \<in> set [(''ui'', [\<lparr>filepath = ''./src/ui/App.tsx'',
                           matches = [''const fakeUser = 1;'', ''// dummy'']\<rparr>])] \<and>
   matches \<lparr>filepath = ''./src/ui/App.tsx'', matches = [''const fakeUser = 1;'', ''// dummy'']\<rparr>
     \<noteq> [] \<and>
   render_entry \<lparr>filepath = ''./src/ui/App.tsx'', matches = [''const fakeUser = 1;'', ''// dummy'']\<rparr>
     = ''#### `./src/ui/App.tsx`\<newline>\<newline>Context (showing 1 of ${entry.matches.length} matches):\<newline>\<newline>```\<newline>const fakeUser = 1;\<newline>```\<newline>\<newline>''"
proof -
  let ?e = "\<lparr>filepath = ''./src/ui/App.tsx'', matches = [''const fakeUser = 1;'', ''// dummy'']\<rparr>"
  have a: "(''ui'', [?e]) \<in> set [(''ui'', [?e])]" by simp
  have b: "?e \<in> set (snd (''ui'', [?e]))" by simp
  have c: "matches ?e \<noteq> []" by simp
  from context_header_is_literal [OF a b c]
  show ?thesis by simp
qed

text \<open>
  C10. A match whose path contains \<^verbatim>\<open>test\<close>, \<^verbatim>\<open>__tests__\<close> or
  \<^verbatim>\<open>spec\<close> at any place leaves \<^verbatim>\<open>results\<close> as it is, whatever its context,
  so no entry of any result has such a path.
\<close>

theorem test_exclusion_is_substring_test:
  assumes "s \<in> {''test'', ''__tests__'', ''spec''}" and "fp = p @ s @ q"
  shows "handle_match results (fp, ctx) = results \<and>
         fp \<notin> filepath ` set (aggregate ms) \<and>
         fp \<notin> filepath ` set (findMockUsageWith grep ps)"
proof -
  have "includes_str fp s"
    unfolding includes_str_iff using assms(2) by blast
  then have t: "is_test_file fp"
    using assms(1) unfolding is_test_file_def by blast
  then have sk: "skipped (fp, c)" for c
    by (simp add: skipped_def)
  have "fp \<notin> fst ` {m \<in> set ms'. \<not> skipped m}" for ms'
    using sk by force
  then have "fp \<notin> set (map filepath (aggregate ms'))" for ms'
    by (simp only: filepath_aggregate set_first_occurrences set_map kept_def set_filter) simp
  then show ?thesis
    using t by (simp add: handle_match_def findMockUsageWith_aggregate)
qed

text \<open>
  Two paths that are no tests: \<^verbatim>\<open>latest\<close> contains \<^verbatim>\<open>test\<close> and
  \<^verbatim>\<open>inspect\<close> contains \<^verbatim>\<open>spec\<close>.
\<close>

theorem test_exclusion_is_substring_test_witness:
  "''test'' \<in> {''test'', ''__tests__'', ''spec''} \<and>
   ''./src/latest/report.ts'' = ''./src/la'' @ ''test'' @ ''/report.ts'' \<and>
   handle_match [] (''./src/latest/report.ts'', ''const mockData = 1;'') = [] \<and>
   ''./src/latest/report.ts'' \<notin>
     filepath ` set (aggregate [(''./src/latest/report.ts'', ''const mockData = 1;'')]) \<and>
   ''spec'' \<in> {''test'', ''__tests__'', ''spec''} \<and>
   ''./src/inspect.ts'' = ''./src/in'' @ ''spec'' @ ''t.ts'' \<and>
   handle_match [] (''./src/inspect.ts'', ''const fake = 1;'') = []"
proof -
  have a: "''test'' \<in> {''test'', ''__tests__'', ''spec''}" by simp
  have b: "''./src/latest/report.ts'' = ''./src/la'' @ ''test'' @ ''/report.ts''" by simp
  have c: "''spec'' \<in> {''test'', ''__tests__'', ''spec''}" by simp
  have d: "''./src/inspect.ts'' = ''./src/in'' @ ''spec'' @ ''t.ts''" by simp
  from test_exclusion_is_substring_test [OF a b, of "[]" "''const mockData = 1;''"
      "[(''./src/latest/report.ts'', ''const mockData = 1;'')]"]
    test_exclusion_is_substring_test [OF c d, of "[]" "''const fake = 1;''"]
  show ?thesis
    using a b c d by blast
qed

end
